theory Spec2Isabelle
  imports Complex_Main
begin

section \<open>JavaScript values and string primitives used by server.js\<close>

text \<open>
  Strings are lists of ASCII characters. Numbers are exact rationals together with the
  three non-finite values of a JavaScript number; rounding to binary floating point is
  not part of the model, and \<open>-0\<close> is identified with \<open>0\<close>.
\<close>

datatype jsnum = Fin rat | NaN | PosInf | NegInf

datatype jsval = JUndefined | JNull | JBool bool | JNum jsnum | JStr string

text \<open>White space as \<^verbatim>\<open>trim\<close> and \<^verbatim>\<open>parseFloat\<close> skip it (TAB, LF, VT, FF, CR, SP).\<close>

definition is_ws :: "char \<Rightarrow> bool" where
  "is_ws c = (c \<in> set [CHR 0x09, CHR 0x0A, CHR 0x0B, CHR 0x0C, CHR 0x0D, CHR '' ''])"

text \<open>\<^verbatim>\<open>String.prototype.toLowerCase\<close> on ASCII.\<close>

definition lower_char :: "char \<Rightarrow> char" where
  "lower_char c =
     (case map_of (zip ''ABCDEFGHIJKLMNOPQRSTUVWXYZ'' ''abcdefghijklmnopqrstuvwxyz'') c of
        None \<Rightarrow> c
      | Some d \<Rightarrow> d)"

definition toLowerCase :: "string \<Rightarrow> string" where
  "toLowerCase s = map lower_char s"

definition trim :: "string \<Rightarrow> string" where
  "trim s = rev (dropWhile is_ws (rev (dropWhile is_ws s)))"

definition dec_digit :: "char \<Rightarrow> nat option" where
  "dec_digit = map_of
     [(CHR ''0'', 0), (CHR ''1'', 1), (CHR ''2'', 2), (CHR ''3'', 3), (CHR ''4'', 4),
      (CHR ''5'', 5), (CHR ''6'', 6), (CHR ''7'', 7), (CHR ''8'', 8), (CHR ''9'', 9)]"

definition is_digit :: "char \<Rightarrow> bool" where
  "is_digit c = (dec_digit c \<noteq> None)"

text \<open>The value of a run of digits in base \<open>b\<close>; a character that is no digit counts 0.\<close>

definition digits_val :: "nat \<Rightarrow> (char \<Rightarrow> nat option) \<Rightarrow> string \<Rightarrow> nat" where
  "digits_val b dv ds = foldl (\<lambda>n c. b * n + (case dv c of None \<Rightarrow> 0 | Some d \<Rightarrow> d)) 0 ds"

text \<open>An optional sign in front of a numeral: (is negative, rest).\<close>

fun split_sign :: "string \<Rightarrow> bool \<times> string" where
  "split_sign [] = (False, [])"
| "split_sign (c # r) =
     (if c = CHR ''-'' then (True, r) else if c = CHR ''+'' then (False, r) else (False, c # r))"

text \<open>
  The exponent part after the mantissa: \<^verbatim>\<open>e\<close> or \<^verbatim>\<open>E\<close>, an optional sign and at least one
  digit; anything else is no exponent (the longest prefix that is a literal ends before it).
\<close>

fun exponent_of :: "string \<Rightarrow> int" where
  "exponent_of [] = 0"
| "exponent_of (c # r) =
     (if c = CHR ''e'' \<or> c = CHR ''E'' then
        (case split_sign r of (neg, r') \<Rightarrow>
           (let ds = takeWhile is_digit r' in
            if ds = [] then 0
            else if neg then - int (digits_val 10 dec_digit ds)
            else int (digits_val 10 dec_digit ds)))
      else 0)"

definition scale10 :: "rat \<Rightarrow> int \<Rightarrow> rat" where
  "scale10 x e = (if 0 \<le> e then x * 10 ^ nat e else x / 10 ^ nat (- e))"

text \<open>
  The global \<^verbatim>\<open>parseFloat\<close>: skip leading white space, read the longest prefix that is a
  decimal literal (sign, \<^verbatim>\<open>Infinity\<close>, or digits with an optional fraction and exponent),
  and return \<open>NaN\<close> when there is none.
\<close>

definition parseFloat :: "string \<Rightarrow> jsnum" where
  "parseFloat s =
     (case split_sign (dropWhile is_ws s) of (neg, t) \<Rightarrow>
        if take 8 t = ''Infinity'' then (if neg then NegInf else PosInf)
        else
          (let ip = takeWhile is_digit t;
               r1 = dropWhile is_digit t;
               fp = (case r1 of [] \<Rightarrow> []
                     | c # r \<Rightarrow> if c = CHR ''.'' then takeWhile is_digit r else []);
               r2 = (case r1 of [] \<Rightarrow> []
                     | c # r \<Rightarrow> if c = CHR ''.'' then dropWhile is_digit r else r1)
           in if ip = [] \<and> fp = [] then NaN
              else
                (let m = of_nat (digits_val 10 dec_digit (ip @ fp)) / 10 ^ length fp;
                     v = scale10 m (exponent_of r2)
                 in Fin (if neg then - v else v))))"

text \<open>\<^verbatim>\<open>x || 0\<close> on a number: the falsy numbers are \<open>0\<close> and \<open>NaN\<close>.\<close>

definition or_zero :: "jsnum \<Rightarrow> jsnum" where
  "or_zero n = (if n = NaN \<or> n = Fin 0 then Fin 0 else n)"

section \<open>parseMoney (server.js, lines 286-291)\<close>

text \<open>
  \<^verbatim>\<open>
  function parseMoney(value) {
    if (value === null || value === undefined) return 0;
    if (typeof value === 'number') return value;
    const cleaned = String(value).replace(/[$,]/g, '');
    return parseFloat(cleaned) || 0;
  }
  \<close>
  \<^verbatim>\<open>String(value)\<close> is reached by a boolean or a string only: it is \<^verbatim>\<open>true\<close> or
  \<^verbatim>\<open>false\<close> for a boolean and the string itself for a string. Objects are not part of
  the model.
\<close>

definition clean_money :: "string \<Rightarrow> string" where
  "clean_money s = filter (\<lambda>c. c \<noteq> CHR ''$'' \<and> c \<noteq> CHR '','') s"

fun parseMoney :: "jsval \<Rightarrow> jsnum" where
  "parseMoney JNull = Fin 0"
| "parseMoney JUndefined = Fin 0"
| "parseMoney (JNum n) = n"
| "parseMoney (JBool b) = or_zero (parseFloat (clean_money (if b then ''true'' else ''false'')))"
| "parseMoney (JStr s) = or_zero (parseFloat (clean_money s))"

section \<open>Referral codes (server.js, lines 33-38)\<close>

definition hex_digit :: "char \<Rightarrow> nat option" where
  "hex_digit = map_of
     [(CHR ''0'', 0), (CHR ''1'', 1), (CHR ''2'', 2), (CHR ''3'', 3), (CHR ''4'', 4),
      (CHR ''5'', 5), (CHR ''6'', 6), (CHR ''7'', 7), (CHR ''8'', 8), (CHR ''9'', 9),
      (CHR ''a'', 10), (CHR ''b'', 11), (CHR ''c'', 12), (CHR ''d'', 13), (CHR ''e'', 14),
      (CHR ''f'', 15), (CHR ''A'', 10), (CHR ''B'', 11), (CHR ''C'', 12), (CHR ''D'', 13),
      (CHR ''E'', 14), (CHR ''F'', 15)]"

definition is_hex :: "char \<Rightarrow> bool" where
  "is_hex c = (hex_digit c \<noteq> None)"

text \<open>
  \<^verbatim>\<open>parseInt(s, 16)\<close>: leading white space, an optional sign and an optional \<^verbatim>\<open>0x\<close> are
  skipped, the longest run of hexadecimal digits is read, and the result is \<open>NaN\<close>
  (here \<open>None\<close>) when that run is empty.
\<close>

definition parseInt16 :: "string \<Rightarrow> int option" where
  "parseInt16 s =
     (case split_sign (dropWhile is_ws s) of (neg, t) \<Rightarrow>
        (let t' = (if take 2 t = ''0x'' \<or> take 2 t = ''0X'' then drop 2 t else t);
             ds = takeWhile is_hex t'
         in if ds = [] then None
            else Some (if neg then - int (digits_val 16 hex_digit ds)
                       else int (digits_val 16 hex_digit ds))))"

text \<open>The remainder operator \<^verbatim>\<open>%\<close>: the result has the sign of the dividend.\<close>

definition js_rem :: "int \<Rightarrow> int \<Rightarrow> int" where
  "js_rem a m = (if 0 \<le> a then a mod m else - ((- a) mod m))"

definition digit_char :: "nat \<Rightarrow> char" where
  "digit_char n = ''0123456789'' ! (n mod 10)"

fun dec :: "nat \<Rightarrow> string" where
  "dec n = (if n < 10 then [digit_char n] else dec (n div 10) @ [digit_char (n mod 10)])"

declare dec.simps [simp del]

text \<open>\<^verbatim>\<open>Number.prototype.toString\<close> on an integer.\<close>

definition js_toString :: "int \<Rightarrow> string" where
  "js_toString n = (if n < 0 then CHR ''-'' # dec (nat (- n)) else dec (nat n))"

text \<open>
  \<^verbatim>\<open>
  function generateReferralCode(email) {
    const hash = crypto.createHash('md5').update(email.toLowerCase().trim()).digest('hex');
    const numericHash = parseInt(hash.substring(0, 8), 16);
    const code = (numericHash % 900000 + 100000).toString();
    return code;
  }
  \<close>
  The digest comes from the \<^verbatim>\<open>crypto\<close> library; it is the parameter \<open>digest\<close>, the map
  from the hashed text to the hexadecimal text of its digest.
\<close>

definition normalize_email :: "string \<Rightarrow> string" where
  "normalize_email email = trim (toLowerCase email)"

definition generateReferralCode :: "(string \<Rightarrow> string) \<Rightarrow> string \<Rightarrow> string" where
  "generateReferralCode digest email =
     (let hash = digest (normalize_email email);
          numericHash = parseInt16 (take 8 hash)
      in case numericHash of
           None \<Rightarrow> ''NaN''
         | Some n \<Rightarrow> js_toString (js_rem n 900000 + 100000))"

section \<open>Persisted state\<close>

text \<open>
  The three tables that the queries of server.js read and write. The schema itself is
  not part of the repository: rows carry the columns the queries name, tables keep
  their rows in insertion order, monetary columns hold exact rationals, time stamps
  are natural numbers, and each table has a sequence that numbers its rows.
\<close>

record user =
  id_user :: nat
  email :: string
  referral_code :: string
  referred_by_code :: "string option"
  balance :: rat
  created_at :: nat

record deposit =
  id_deposit :: nat
  user_id :: nat
  amount_deposit :: rat
  status_deposit :: string
  created_at_deposit :: nat

record earning =
  id_earning :: nat
  referrer_id :: nat
  referred_user_id :: nat
  deposit_id :: nat
  level :: nat
  percentage :: rat
  amount :: rat
  status :: string
  created_at_earning :: nat
  claimed_at :: "nat option"

record db =
  users :: "user list"
  deposits :: "deposit list"
  referral_earnings :: "earning list"
  users_seq :: nat
  deposits_seq :: nat
  earnings_seq :: nat

datatype error = BadRequest string | NotFound string | ServerError

text \<open>A request field is absent (\<open>None\<close>) or present; \<^verbatim>\<open>!x\<close> holds for an absent or empty string.\<close>

fun missing :: "string option \<Rightarrow> bool" where
  "missing None = True"
| "missing (Some s) = (s = [])"

fun field :: "string option \<Rightarrow> string" where
  "field None = []"
| "field (Some s) = s"

section \<open>Identity resolver (server.js, lines 40-57)\<close>

definition findUserByEmail :: "db \<Rightarrow> string \<Rightarrow> user option" where
  "findUserByEmail d e = find (\<lambda>u. email u = normalize_email e) (users d)"

definition findUserByReferralCode :: "db \<Rightarrow> string \<Rightarrow> user option" where
  "findUserByReferralCode d code = find (\<lambda>u. referral_code u = code) (users d)"

definition createUser ::
  "(string \<Rightarrow> string) \<Rightarrow> nat \<Rightarrow> string \<Rightarrow> string option \<Rightarrow> db \<Rightarrow> user \<times> db" where
  "createUser digest now e referredByCode d =
     (let referralCode = generateReferralCode digest e;
          row = \<lparr>id_user = Suc (users_seq d), email = normalize_email e,
                 referral_code = referralCode, referred_by_code = referredByCode,
                 balance = 0, created_at = now\<rparr>
      in (row, d\<lparr>users := users d @ [row], users_seq := Suc (users_seq d)\<rparr>))"

section \<open>Ancestor chain walker (server.js, lines 59-78)\<close>

text \<open>
  \<^verbatim>\<open>SELECT u2.* FROM users u1 JOIN users u2 ON u1.referred_by_code = u2.referral_code
  WHERE u1.id = $1\<close>: a null \<^verbatim>\<open>referred_by_code\<close> joins with no row.
\<close>

definition referrer_rows :: "db \<Rightarrow> nat \<Rightarrow> user list" where
  "referrer_rows d uid =
     concat (map (\<lambda>u1. filter (\<lambda>u2. referred_by_code u1 = Some (referral_code u2)) (users d))
                 (filter (\<lambda>u1. id_user u1 = uid) (users d)))"

function getReferrerChain_loop ::
  "db \<Rightarrow> nat \<Rightarrow> nat \<Rightarrow> nat \<Rightarrow> (user \<times> nat) list \<Rightarrow> (user \<times> nat) list" where
  "getReferrerChain_loop d maxLevel currentUserId lvl chain =
     (if lvl < maxLevel then
        (case referrer_rows d currentUserId of
           [] \<Rightarrow> chain
         | r # _ \<Rightarrow> getReferrerChain_loop d maxLevel (id_user r) (Suc lvl) (chain @ [(r, Suc lvl)]))
      else chain)"
  by pat_completeness auto
termination
  by (relation "measure (\<lambda>(d, maxLevel, currentUserId, lvl, chain). maxLevel - lvl)") auto

declare getReferrerChain_loop.simps [simp del]

definition getReferrerChain :: "db \<Rightarrow> nat \<Rightarrow> nat \<Rightarrow> (user \<times> nat) list" where
  "getReferrerChain d userId maxLevel = getReferrerChain_loop d maxLevel userId 0 []"

section \<open>Team expander (server.js, lines 80-111)\<close>

record member =
  member_id :: nat
  member_email :: string
  member_referral_code :: string
  member_created_at :: nat

record team =
  level1 :: "member list"
  level2 :: "member list"
  level3 :: "member list"

text \<open>
  \<^verbatim>\<open>SELECT id, email, referral_code, created_at FROM users WHERE referred_by_code = $1\<close>
\<close>

definition select_referred :: "db \<Rightarrow> string \<Rightarrow> member list" where
  "select_referred d code =
     map (\<lambda>u. \<lparr>member_id = id_user u, member_email = email u,
                member_referral_code = referral_code u, member_created_at = created_at u\<rparr>)
         (filter (\<lambda>u. referred_by_code u = Some code) (users d))"

definition team_inner :: "db \<Rightarrow> team \<Rightarrow> member \<Rightarrow> team" where
  "team_inner d t l2User = t\<lparr>level3 := level3 t @ select_referred d (member_referral_code l2User)\<rparr>"

definition team_outer :: "db \<Rightarrow> team \<Rightarrow> member \<Rightarrow> team" where
  "team_outer d t l1User =
     (let rows2 = select_referred d (member_referral_code l1User)
      in foldl (team_inner d) (t\<lparr>level2 := level2 t @ rows2\<rparr>) rows2)"

definition getTeamByLevel :: "db \<Rightarrow> nat \<Rightarrow> team" where
  "getTeamByLevel d userId =
     (let t = \<lparr>level1 = [], level2 = [], level3 = []\<rparr>
      in case filter (\<lambda>u. id_user u = userId) (users d) of
           [] \<Rightarrow> t
         | u # _ \<Rightarrow>
             (let userCode = referral_code u;
                  rows1 = select_referred d userCode
              in foldl (team_outer d) (t\<lparr>level1 := rows1\<rparr>) rows1))"

section \<open>Commission accrual engine (server.js, lines 27-31 and 113-127)\<close>

definition REFERRAL_LEVELS :: "nat \<Rightarrow> rat option" where
  "REFERRAL_LEVELS = map_of [(1, 16), (2, 3), (3, 2)]"

text \<open>
  The loop of calculateReferralEarnings over the chain, one INSERT per entry. A level
  outside the table would make the percentage \<^verbatim>\<open>undefined\<close> and the amount \<open>NaN\<close>; the
  model lets the store reject that row, and the rows written before it stay (there is
  no transaction).
\<close>

fun insert_earnings ::
  "nat \<Rightarrow> nat \<Rightarrow> nat \<Rightarrow> rat \<Rightarrow> (user \<times> nat) list \<Rightarrow> db \<Rightarrow> error option \<times> db" where
  "insert_earnings now depositId userId amt [] d = (None, d)"
| "insert_earnings now depositId userId amt ((referrer, lvl) # rest) d =
     (case REFERRAL_LEVELS lvl of
        None \<Rightarrow> (Some ServerError, d)
      | Some pct \<Rightarrow>
          (let earningAmount = (amt * pct) / 100;
               row = \<lparr>id_earning = Suc (earnings_seq d), referrer_id = id_user referrer,
                      referred_user_id = userId, deposit_id = depositId, level = lvl,
                      percentage = pct, amount = earningAmount, status = ''pending'',
                      created_at_earning = now, claimed_at = None\<rparr>
           in insert_earnings now depositId userId amt rest
                (d\<lparr>referral_earnings := referral_earnings d @ [row],
                   earnings_seq := Suc (earnings_seq d)\<rparr>)))"

definition calculateReferralEarnings ::
  "nat \<Rightarrow> nat \<Rightarrow> nat \<Rightarrow> rat \<Rightarrow> db \<Rightarrow> error option \<times> db" where
  "calculateReferralEarnings now depositId userId amt d =
     (let chain = getReferrerChain d userId 3
      in insert_earnings now depositId userId amt chain d)"

section \<open>Email masking (server.js, lines 222, 255 and 462)\<close>

text \<open>
  \<^verbatim>\<open>email.replace(/(.{2})(.*)(@.*)/, '$1***$3')\<close>. A dot matches any character but a line
  terminator. At a start position the pattern needs two such characters; the greedy
  second group then runs to the last \<^verbatim>\<open>@\<close> of the line, and the third group runs from that
  \<^verbatim>\<open>@\<close> to the end of the line. The leftmost start position that matches is replaced;
  without a match the text is returned as it is.
\<close>

definition is_lt :: "char \<Rightarrow> bool" where
  "is_lt c = (c = CHR 0x0A \<or> c = CHR 0x0D)"

text \<open>A match at the head of the text: the groups 1 and 3 and the text after the match.\<close>

fun match_here :: "string \<Rightarrow> (string \<times> string \<times> string) option" where
  "match_here (c1 # c2 # t) =
     (if is_lt c1 \<or> is_lt c2 then None
      else
        (let line = takeWhile (\<lambda>c. \<not> is_lt c) t;
             rest = dropWhile (\<lambda>c. \<not> is_lt c) t
         in if CHR ''@'' \<in> set line
            then Some ([c1, c2],
                       CHR ''@'' # rev (takeWhile (\<lambda>c. c \<noteq> CHR ''@'') (rev line)),
                       rest)
            else None))"
| "match_here _ = None"

fun maskEmail :: "string \<Rightarrow> string" where
  "maskEmail [] = []"
| "maskEmail (c # s) =
     (case match_here (c # s) of
        Some (g1, g3, rest) \<Rightarrow> g1 @ ''***'' @ g3 @ rest
      | None \<Rightarrow> c # maskEmail s)"

section \<open>Request handlers\<close>

text \<open>
  Each handler takes the request fields and the state and returns the response and the
  state it leaves. What the database driver hands to JavaScript depends on column types
  that the repository does not declare, so the handlers take two parameters:
  \<open>num_text\<close>, the text in which the driver delivers a \<^verbatim>\<open>numeric\<close> aggregate, and
  \<open>money_js\<close>, the JavaScript value in which it delivers a stored monetary column.
  \<open>digest\<close> is the digest of the referral-code generator and \<open>now\<close> the time of
  the request. The \<^verbatim>\<open>message\<close> fields of the responses are left out.
\<close>

definition referralLink :: "string \<Rightarrow> string" where
  "referralLink code = ''https://luxearn.site/#/login?ref='' @ code"

record referral_data =
  rd_referralCode :: string
  rd_referralLink :: string
  rd_email :: string

definition referral_handler ::
  "(string \<Rightarrow> string) \<Rightarrow> nat \<Rightarrow> string option \<Rightarrow> db \<Rightarrow> (error + referral_data) \<times> db" where
  "referral_handler digest now e d =
     (if missing e then (Inl (BadRequest ''Email is required''), d)
      else
        (case (case findUserByEmail d (field e) of
                 Some u \<Rightarrow> (u, d)
               | None \<Rightarrow> createUser digest now (field e) None d) of
           (u, d') \<Rightarrow>
             (Inr \<lparr>rd_referralCode = referral_code u,
                   rd_referralLink = referralLink (referral_code u),
                   rd_email = email u\<rparr>, d')))"

record register_data =
  rg_id :: nat
  rg_email :: string
  rg_referralCode :: string
  rg_referralLink :: string
  rg_isNew :: bool

definition register_handler ::
  "(string \<Rightarrow> string) \<Rightarrow> nat \<Rightarrow> string option \<Rightarrow> string option \<Rightarrow> db
     \<Rightarrow> (error + register_data) \<times> db" where
  "register_handler digest now e referralCode d =
     (if missing e then (Inl (BadRequest ''Email is required''), d)
      else
        (case findUserByEmail d (field e) of
           Some u \<Rightarrow>
             (Inr \<lparr>rg_id = id_user u, rg_email = email u, rg_referralCode = referral_code u,
                   rg_referralLink = referralLink (referral_code u), rg_isNew = False\<rparr>, d)
         | None \<Rightarrow>
             (let validReferralCode =
                    (if \<not> missing referralCode
                        \<and> findUserByReferralCode d (field referralCode) \<noteq> None
                     then referralCode else None)
              in case createUser digest now (field e) validReferralCode d of
                   (u, d') \<Rightarrow>
                     (Inr \<lparr>rg_id = id_user u, rg_email = email u,
                           rg_referralCode = referral_code u,
                           rg_referralLink = referralLink (referral_code u),
                           rg_isNew = True\<rparr>, d'))))"

record inviter_data =
  iv_maskedEmail :: string
  iv_referralCode :: string
  iv_joinedAt :: nat

definition inviter_handler :: "string option \<Rightarrow> db \<Rightarrow> (error + inviter_data) \<times> db" where
  "inviter_handler referralCode d =
     (if missing referralCode then (Inl (BadRequest ''Referral code is required''), d)
      else
        (case findUserByReferralCode d (field referralCode) of
           None \<Rightarrow> (Inl (NotFound ''Inviter not found''), d)
         | Some inviter \<Rightarrow>
             (Inr \<lparr>iv_maskedEmail = maskEmail (email inviter),
                   iv_referralCode = referral_code inviter,
                   iv_joinedAt = created_at inviter\<rparr>, d)))"

record level_data =
  ld_count :: nat
  ld_percentage :: "rat option"
  ld_members :: "(string \<times> nat) list"

record team_data =
  td_level1 :: level_data
  td_level2 :: level_data
  td_level3 :: level_data
  td_totalTeam :: nat

definition formatMember :: "member \<Rightarrow> string \<times> nat" where
  "formatMember m = (maskEmail (member_email m), member_created_at m)"

definition team_handler :: "string option \<Rightarrow> db \<Rightarrow> (error + team_data) \<times> db" where
  "team_handler e d =
     (if missing e then (Inl (BadRequest ''Email is required''), d)
      else
        (case findUserByEmail d (field e) of
           None \<Rightarrow> (Inl (NotFound ''User not found''), d)
         | Some u \<Rightarrow>
             (let t = getTeamByLevel d (id_user u)
              in (Inr \<lparr>td_level1 = \<lparr>ld_count = length (level1 t),
                                      ld_percentage = REFERRAL_LEVELS 1,
                                      ld_members = map formatMember (level1 t)\<rparr>,
                       td_level2 = \<lparr>ld_count = length (level2 t),
                                      ld_percentage = REFERRAL_LEVELS 2,
                                      ld_members = map formatMember (level2 t)\<rparr>,
                       td_level3 = \<lparr>ld_count = length (level3 t),
                                      ld_percentage = REFERRAL_LEVELS 3,
                                      ld_members = map formatMember (level3 t)\<rparr>,
                       td_totalTeam = length (level1 t) + length (level2 t) + length (level3 t)\<rparr>,
                  d))))"

text \<open>
  \<^verbatim>\<open>SELECT COALESCE(SUM(amount::numeric), 0) as total FROM referral_earnings
  WHERE referrer_id = $1 AND status = ...\<close>
\<close>

definition status_total :: "db \<Rightarrow> nat \<Rightarrow> string \<Rightarrow> rat" where
  "status_total d uid st =
     sum_list (map amount (filter (\<lambda>e. referrer_id e = uid \<and> status e = st) (referral_earnings d)))"

text \<open>
  The row of one level in \<^verbatim>\<open>SELECT level, COALESCE(SUM(amount::numeric), 0) as total ...
  WHERE referrer_id = $1 GROUP BY level\<close>; a level with no earning has no row.
\<close>

definition level_total :: "db \<Rightarrow> nat \<Rightarrow> nat \<Rightarrow> rat option" where
  "level_total d uid l =
     (let rows = filter (\<lambda>e. referrer_id e = uid \<and> level e = l) (referral_earnings d)
      in if rows = [] then None else Some (sum_list (map amount rows)))"

text \<open>\<^verbatim>\<open>parseFloat(rows.find(r => r.level === l)?.total) || 0\<close>\<close>

definition breakdown_value :: "(rat \<Rightarrow> string) \<Rightarrow> rat option \<Rightarrow> jsnum" where
  "breakdown_value num_text t =
     or_zero (parseFloat (case t of None \<Rightarrow> ''undefined'' | Some q \<Rightarrow> num_text q))"

record balance_data =
  pendingBalance :: jsnum
  claimedBalance :: jsnum
  totalBalance :: jsnum
  breakdown1 :: jsnum
  breakdown2 :: jsnum
  breakdown3 :: jsnum

definition balance_handler ::
  "(rat \<Rightarrow> string) \<Rightarrow> (rat \<Rightarrow> jsval) \<Rightarrow> string option \<Rightarrow> db \<Rightarrow> (error + balance_data) \<times> db" where
  "balance_handler num_text money_js e d =
     (if missing e then (Inl (BadRequest ''Email is required''), d)
      else
        (case findUserByEmail d (field e) of
           None \<Rightarrow> (Inl (NotFound ''User not found''), d)
         | Some u \<Rightarrow>
             (Inr \<lparr>pendingBalance =
                     or_zero (parseFloat (num_text (status_total d (id_user u) ''pending''))),
                   claimedBalance =
                     or_zero (parseFloat (num_text (status_total d (id_user u) ''claimed''))),
                   totalBalance = parseMoney (money_js (balance u)),
                   breakdown1 = breakdown_value num_text (level_total d (id_user u) 1),
                   breakdown2 = breakdown_value num_text (level_total d (id_user u) 2),
                   breakdown3 = breakdown_value num_text (level_total d (id_user u) 3)\<rparr>, d)))"

text \<open>\<^verbatim>\<open>x <= 0\<close> on a number.\<close>

fun js_le_zero :: "jsnum \<Rightarrow> bool" where
  "js_le_zero (Fin q) = (q \<le> 0)"
| "js_le_zero NaN = False"
| "js_le_zero PosInf = False"
| "js_le_zero NegInf = True"

text \<open>
  \<^verbatim>\<open>UPDATE referral_earnings SET status = 'claimed', claimed_at = NOW()
  WHERE referrer_id = $1 AND status = 'pending'\<close>
\<close>

definition mark_claimed :: "nat \<Rightarrow> nat \<Rightarrow> earning \<Rightarrow> earning" where
  "mark_claimed now uid e =
     (if referrer_id e = uid \<and> status e = ''pending''
      then e\<lparr>status := ''claimed'', claimed_at := Some now\<rparr> else e)"

text \<open>\<^verbatim>\<open>UPDATE users SET balance = balance + $1 WHERE id = $2\<close>\<close>

definition add_balance :: "rat \<Rightarrow> nat \<Rightarrow> user \<Rightarrow> user" where
  "add_balance q uid u = (if id_user u = uid then u\<lparr>balance := balance u + q\<rparr> else u)"

record claim_data =
  claimedAmount :: jsnum
  newBalance :: jsnum

text \<open>
  The claim handler (lines 345-394). The two updates are separate statements. The
  balance column of the model holds finite values, so a parameter that is not finite is
  refused by the second update, after the first one has been done; a missing user at the
  re-read makes the handler throw. Both end in the handler's \<^verbatim>\<open>catch\<close>.
\<close>

definition claim_handler ::
  "(rat \<Rightarrow> string) \<Rightarrow> (rat \<Rightarrow> jsval) \<Rightarrow> nat \<Rightarrow> string option \<Rightarrow> db \<Rightarrow> (error + claim_data) \<times> db" where
  "claim_handler num_text money_js now e d =
     (if missing e then (Inl (BadRequest ''Email is required''), d)
      else
        (case findUserByEmail d (field e) of
           None \<Rightarrow> (Inl (NotFound ''User not found''), d)
         | Some u \<Rightarrow>
             (let pendingAmount =
                    or_zero (parseFloat (num_text (status_total d (id_user u) ''pending'')))
              in if js_le_zero pendingAmount
                 then (Inl (BadRequest ''No pending rewards to claim''), d)
                 else
                   (let d1 = d\<lparr>referral_earnings :=
                                  map (mark_claimed now (id_user u)) (referral_earnings d)\<rparr>
                    in case pendingAmount of
                         Fin q \<Rightarrow>
                           (let d2 = d1\<lparr>users := map (add_balance q (id_user u)) (users d1)\<rparr>
                            in case findUserByEmail d2 (field e) of
                                 None \<Rightarrow> (Inl ServerError, d2)
                               | Some updatedUser \<Rightarrow>
                                   (Inr \<lparr>claimedAmount = pendingAmount,
                                         newBalance = parseMoney (money_js (balance updatedUser))\<rparr>,
                                    d2))
                       | _ \<Rightarrow> (Inl ServerError, d1)))))"

record deposit_data =
  dd_depositId :: nat
  dd_amount :: rat

text \<open>
  The deposit handler (lines 396-431). The amount of the request body is absent or a
  JSON number; \<^verbatim>\<open>!amount\<close> holds when it is absent or zero.
\<close>

fun no_amount :: "rat option \<Rightarrow> bool" where
  "no_amount None = True"
| "no_amount (Some a) = (a = 0)"

fun amount_of :: "rat option \<Rightarrow> rat" where
  "amount_of None = 0"
| "amount_of (Some a) = a"

definition deposit_handler ::
  "nat \<Rightarrow> string option \<Rightarrow> rat option \<Rightarrow> db \<Rightarrow> (error + deposit_data) \<times> db" where
  "deposit_handler now e amt d =
     (if missing e \<or> no_amount amt
      then (Inl (BadRequest ''Email and amount are required''), d)
      else
        (case findUserByEmail d (field e) of
           None \<Rightarrow> (Inl (NotFound ''User not found''), d)
         | Some u \<Rightarrow>
             (let row = \<lparr>id_deposit = Suc (deposits_seq d), user_id = id_user u,
                         amount_deposit = amount_of amt, status_deposit = ''completed'',
                         created_at_deposit = now\<rparr>;
                  d1 = d\<lparr>deposits := deposits d @ [row], deposits_seq := Suc (deposits_seq d)\<rparr>
              in case calculateReferralEarnings now (id_deposit row) (id_user u) (amount_of amt) d1 of
                   (Some err, d2) \<Rightarrow> (Inl ServerError, d2)
                 | (None, d2) \<Rightarrow>
                     (Inr \<lparr>dd_depositId = id_deposit row, dd_amount = amount_of amt\<rparr>, d2))))"

record history_entry =
  he_level :: nat
  he_percentage :: rat
  he_amount :: jsnum
  he_status :: string
  he_referredEmail :: string
  he_createdAt :: nat
  he_claimedAt :: "nat option"

text \<open>
  The earnings history (lines 433-475): the join of the user's earnings with the referred
  users, newest first, at most 50 rows.
\<close>

definition history_rows :: "db \<Rightarrow> nat \<Rightarrow> (earning \<times> user) list" where
  "history_rows d uid =
     take 50 (rev (sort_key (\<lambda>r. created_at_earning (fst r))
       (concat (map (\<lambda>re. map (\<lambda>u. (re, u)) (filter (\<lambda>u. id_user u = referred_user_id re) (users d)))
                    (filter (\<lambda>re. referrer_id re = uid) (referral_earnings d))))))"

definition history_handler ::
  "(rat \<Rightarrow> jsval) \<Rightarrow> string option \<Rightarrow> db \<Rightarrow> (error + history_entry list) \<times> db" where
  "history_handler money_js e d =
     (if missing e then (Inl (BadRequest ''Email is required''), d)
      else
        (case findUserByEmail d (field e) of
           None \<Rightarrow> (Inl (NotFound ''User not found''), d)
         | Some u \<Rightarrow>
             (Inr (map (\<lambda>r. \<lparr>he_level = level (fst r), he_percentage = percentage (fst r),
                              he_amount = parseMoney (money_js (amount (fst r))),
                              he_status = status (fst r),
                              he_referredEmail = maskEmail (email (snd r)),
                              he_createdAt = created_at_earning (fst r),
                              he_claimedAt = claimed_at (fst r)\<rparr>)
                       (history_rows d (id_user u))), d)))"

section \<open>The operations of the service as state transitions\<close>

datatype request =
    GetReferral "string option"
  | PostRegister "string option" "string option"
  | GetInviter "string option"
  | GetTeam "string option"
  | GetBalance "string option"
  | PostClaim "string option"
  | PostDeposit "string option" "rat option"
  | GetEarningsHistory "string option"
  | GetHealth

text \<open>The state an operation leaves; \<^verbatim>\<open>/api/health\<close> does not touch the store.\<close>

fun exec ::
  "(string \<Rightarrow> string) \<Rightarrow> (rat \<Rightarrow> string) \<Rightarrow> (rat \<Rightarrow> jsval) \<Rightarrow> nat \<Rightarrow> request \<Rightarrow> db \<Rightarrow> db" where
  "exec digest num_text money_js now (GetReferral e) d = snd (referral_handler digest now e d)"
| "exec digest num_text money_js now (PostRegister e c) d = snd (register_handler digest now e c d)"
| "exec digest num_text money_js now (GetInviter c) d = snd (inviter_handler c d)"
| "exec digest num_text money_js now (GetTeam e) d = snd (team_handler e d)"
| "exec digest num_text money_js now (GetBalance e) d = snd (balance_handler num_text money_js e d)"
| "exec digest num_text money_js now (PostClaim e) d = snd (claim_handler num_text money_js now e d)"
| "exec digest num_text money_js now (PostDeposit e a) d = snd (deposit_handler now e a d)"
| "exec digest num_text money_js now (GetEarningsHistory e) d = snd (history_handler money_js e d)"
| "exec digest num_text money_js now GetHealth d = d"

fun is_claim :: "request \<Rightarrow> bool" where
  "is_claim (PostClaim e) = True"
| "is_claim _ = False"

section \<open>The walk and the team as the specification words them\<close>

text \<open>
  The user whose \<open>referralCode\<close> equals the \<open>referredByCode\<close> of the user with the given id.
\<close>

definition parent_of :: "db \<Rightarrow> nat \<Rightarrow> user option" where
  "parent_of d uid =
     (case find (\<lambda>u. id_user u = uid) (users d) of
        None \<Rightarrow> None
      | Some u \<Rightarrow>
          (case referred_by_code u of
             None \<Rightarrow> None
           | Some c \<Rightarrow> find (\<lambda>p. referral_code p = c) (users d)))"

text \<open>
  Repeated lookup from \<open>uid\<close>, pairing the users found with the levels \<open>lvl\<close>, \<open>lvl + 1\<close>, ...
  and stopping when there is no such user or \<open>n\<close> entries have been produced.
\<close>

fun ancestors :: "db \<Rightarrow> nat \<Rightarrow> nat \<Rightarrow> nat \<Rightarrow> (user \<times> nat) list" where
  "ancestors d uid lvl 0 = []"
| "ancestors d uid lvl (Suc n) =
     (case parent_of d uid of
        None \<Rightarrow> []
      | Some p \<Rightarrow> (p, lvl) # ancestors d (id_user p) (Suc lvl) n)"


text \<open>The tier table as the specification states it: level 1 earns 16, level 2 earns 3, level 3 earns 2.\<close>

definition tier_rate :: "nat \<Rightarrow> rat" where
  "tier_rate l = (if l = 1 then 16 else if l = 2 then 3 else if l = 3 then 2 else 0)"

text \<open>
  One pending earning per entry of a chain, for a deposit \<open>depositId\<close> of \<open>amt\<close> by
  \<open>userId\<close>, numbered from the sequence value \<open>seq\<close> on.
\<close>

definition accrued_rows ::
  "nat \<Rightarrow> nat \<Rightarrow> nat \<Rightarrow> rat \<Rightarrow> nat \<Rightarrow> (user \<times> nat) list \<Rightarrow> earning list" where
  "accrued_rows now depositId userId amt seq chain =
     map (\<lambda>(k, referrer, lvl).
            \<lparr>id_earning = k, referrer_id = id_user referrer, referred_user_id = userId,
             deposit_id = depositId, level = lvl, percentage = tier_rate lvl,
             amount = amt * tier_rate lvl / 100, status = ''pending'',
             created_at_earning = now, claimed_at = None\<rparr>)
         (enumerate (Suc seq) chain)"

section \<open>An example state\<close>

text \<open>
  Alice referred Bob and Dave, Bob referred Carol, Dave referred Erin. Bob and Carol
  each deposited 100; nothing has been claimed.
\<close>

definition alice :: user where
  "alice = \<lparr>id_user = 1, email = ''alice@example.com'', referral_code = ''111111'',
            referred_by_code = None, balance = 5, created_at = 10\<rparr>"

definition bob :: user where
  "bob = \<lparr>id_user = 2, email = ''bob@example.com'', referral_code = ''222222'',
          referred_by_code = Some ''111111'', balance = 0, created_at = 20\<rparr>"

definition carol :: user where
  "carol = \<lparr>id_user = 3, email = ''carol@example.com'', referral_code = ''333333'',
            referred_by_code = Some ''222222'', balance = 0, created_at = 30\<rparr>"

definition dave :: user where
  "dave = \<lparr>id_user = 4, email = ''dave@example.com'', referral_code = ''444444'',
           referred_by_code = Some ''111111'', balance = 0, created_at = 40\<rparr>"

definition erin :: user where
  "erin = \<lparr>id_user = 5, email = ''erin@example.com'', referral_code = ''555555'',
           referred_by_code = Some ''444444'', balance = 0, created_at = 50\<rparr>"

definition example_earnings :: "earning list" where
  "example_earnings =
     [\<lparr>id_earning = 1, referrer_id = 1, referred_user_id = 2, deposit_id = 1, level = 1,
       percentage = 16, amount = 16, status = ''pending'', created_at_earning = 60,
       claimed_at = None\<rparr>,
      \<lparr>id_earning = 2, referrer_id = 2, referred_user_id = 3, deposit_id = 2, level = 1,
       percentage = 16, amount = 16, status = ''pending'', created_at_earning = 70,
       claimed_at = None\<rparr>,
      \<lparr>id_earning = 3, referrer_id = 1, referred_user_id = 3, deposit_id = 2, level = 2,
       percentage = 3, amount = 3, status = ''pending'', created_at_earning = 70,
       claimed_at = None\<rparr>]"

definition example_db :: db where
  "example_db =
     \<lparr>users = [alice, bob, carol, dave, erin],
      deposits = [\<lparr>id_deposit = 1, user_id = 2, amount_deposit = 100,
                   status_deposit = ''completed'', created_at_deposit = 60\<rparr>,
                  \<lparr>id_deposit = 2, user_id = 3, amount_deposit = 100,
                   status_deposit = ''completed'', created_at_deposit = 70\<rparr>],
      referral_earnings = example_earnings,
      users_seq = 5, deposits_seq = 2, earnings_seq = 3\<rparr>"

text \<open>A state whose only user has an address with a local part of one character.\<close>

definition short_db :: db where
  "short_db =
     \<lparr>users = [\<lparr>id_user = 1, email = ''a@example.com'', referral_code = ''123456'',
                referred_by_code = None, balance = 0, created_at = 10\<rparr>],
      deposits = [], referral_earnings = [],
      users_seq = 1, deposits_seq = 0, earnings_seq = 0\<rparr>"

text \<open>
  A driver for the example: \<^verbatim>\<open>numeric\<close> values arrive as decimal text with two places,
  stored monetary columns likewise.
\<close>

definition example_text :: "rat \<Rightarrow> string" where
  "example_text q =
     (if q = 19 then ''19.00'' else if q = 24 then ''24.00'' else if q = 16 then ''16.00''
      else if q = 5 then ''5.00'' else if q = 3 then ''3.00'' else ''0'')"

definition example_money :: "rat \<Rightarrow> jsval" where
  "example_money q = JStr (example_text q)"

text \<open>A digest for the example: the MD5 digest of Frank's normalized address.\<close>

definition example_digest :: "string \<Rightarrow> string" where
  "example_digest s =
     (if s = ''frank@example.com'' then ''0201e09438aed04bd5e3cdc25dd5289d''
      else ''d41d8cd98f00b204e9800998ecf8427e'')"

section \<open>Evaluation rules for concrete inputs\<close>

lemmas parse_defs =
  parseFloat_def is_ws_def is_digit_def dec_digit_def digits_val_def scale10_def
  clean_money_def or_zero_def

lemmas normalize_defs =
  normalize_email_def trim_def toLowerCase_def lower_char_def is_ws_def

section \<open>parseMoney and the responses built with it\<close>

lemma or_zero_not_NaN: "or_zero n \<noteq> NaN"
  by (simp add: or_zero_def)

lemma parseMoney_not_NaN: "v \<noteq> JNum NaN \<Longrightarrow> parseMoney v \<noteq> NaN"
  by (cases v) (auto simp: or_zero_not_NaN)

lemma balance_handler_no_NaN:
  assumes "\<And>q. money_js q \<noteq> JNum NaN"
    and "balance_handler num_text money_js e d = (Inr r, d')"
  shows "pendingBalance r \<noteq> NaN \<and> claimedBalance r \<noteq> NaN \<and> totalBalance r \<noteq> NaN
       \<and> breakdown1 r \<noteq> NaN \<and> breakdown2 r \<noteq> NaN \<and> breakdown3 r \<noteq> NaN"
  using assms
  by (auto simp: balance_handler_def breakdown_value_def or_zero_not_NaN parseMoney_not_NaN
           split: if_splits option.splits)

lemma claim_handler_no_NaN:
  assumes "\<And>q. money_js q \<noteq> JNum NaN"
    and "claim_handler num_text money_js now e d = (Inr r, d')"
  shows "claimedAmount r \<noteq> NaN \<and> newBalance r \<noteq> NaN"
  using assms
  by (auto simp: claim_handler_def Let_def or_zero_not_NaN parseMoney_not_NaN
           split: if_splits option.splits jsnum.splits)

lemma ex_find_alice: "findUserByEmail example_db ''Alice@Example.com '' = Some alice"
  by (simp add: findUserByEmail_def normalize_defs example_db_def alice_def)

lemma ex_balance:
  "balance_handler example_text example_money (Some ''Alice@Example.com '') example_db =
     (Inr \<lparr>pendingBalance = Fin 19, claimedBalance = Fin 0, totalBalance = Fin 5,
           breakdown1 = Fin 16, breakdown2 = Fin 3, breakdown3 = Fin 0\<rparr>, example_db)"
  apply (simp add: balance_handler_def ex_find_alice)
  apply (simp add: alice_def status_total_def level_total_def breakdown_value_def
      example_db_def example_earnings_def example_text_def example_money_def parse_defs)
  done

text \<open>
  C10 (as amended). parseMoney returns 0 for \<^verbatim>\<open>null\<close> and \<^verbatim>\<open>undefined\<close>, returns a number
  unchanged, strips \<^verbatim>\<open>$\<close> and \<^verbatim>\<open>,\<close> from a string before parsing it and returns 0 when the
  stripped string does not parse. Its result is \<open>NaN\<close> for no input but the number \<open>NaN\<close>
  itself, so when the driver never delivers the number \<open>NaN\<close> for a monetary column, no
  field of a balance response or of a claim response is \<open>NaN\<close>.
\<close>

theorem parseMoney_never_NaN_but_for_NaN:
  "parseMoney JNull = Fin 0 \<and> parseMoney JUndefined = Fin 0
   \<and> parseMoney (JNum n) = n
   \<and> parseMoney (JStr s) = or_zero (parseFloat (clean_money s))
   \<and> (parseFloat (clean_money s) = NaN \<longrightarrow> parseMoney (JStr s) = Fin 0)
   \<and> (v \<noteq> JNum NaN \<longrightarrow> parseMoney v \<noteq> NaN)
   \<and> ((\<forall>q. money_js q \<noteq> JNum NaN) \<longrightarrow>
        (\<forall>r d'. balance_handler num_text money_js e d = (Inr r, d') \<longrightarrow>
           pendingBalance r \<noteq> NaN \<and> claimedBalance r \<noteq> NaN \<and> totalBalance r \<noteq> NaN
           \<and> breakdown1 r \<noteq> NaN \<and> breakdown2 r \<noteq> NaN \<and> breakdown3 r \<noteq> NaN)
        \<and> (\<forall>r d'. claim_handler num_text money_js now e d = (Inr r, d') \<longrightarrow>
           claimedAmount r \<noteq> NaN \<and> newBalance r \<noteq> NaN))"
proof -
  have "parseFloat (clean_money s) = NaN \<Longrightarrow> parseMoney (JStr s) = Fin 0"
    by (simp add: or_zero_def)
  moreover have "v \<noteq> JNum NaN \<Longrightarrow> parseMoney v \<noteq> NaN"
    by (rule parseMoney_not_NaN)
  moreover have "(\<forall>q. money_js q \<noteq> JNum NaN) \<Longrightarrow>
        (\<forall>r d'. balance_handler num_text money_js e d = (Inr r, d') \<longrightarrow>
           pendingBalance r \<noteq> NaN \<and> claimedBalance r \<noteq> NaN \<and> totalBalance r \<noteq> NaN
           \<and> breakdown1 r \<noteq> NaN \<and> breakdown2 r \<noteq> NaN \<and> breakdown3 r \<noteq> NaN)"
    using balance_handler_no_NaN by blast
  moreover have "(\<forall>q. money_js q \<noteq> JNum NaN) \<Longrightarrow>
        (\<forall>r d'. claim_handler num_text money_js now e d = (Inr r, d') \<longrightarrow>
           claimedAmount r \<noteq> NaN \<and> newBalance r \<noteq> NaN)"
    using claim_handler_no_NaN by blast
  ultimately show ?thesis by simp
qed

theorem parseMoney_never_NaN_but_for_NaN_witness:
  "parseFloat (clean_money ''n/a'') = NaN \<and> parseMoney (JStr ''n/a'') = Fin 0
   \<and> parseMoney (JNum (Fin 7)) = Fin 7
   \<and> parseMoney (JStr ''$1,234.50'') = Fin (2469 / 2)
   \<and> parseMoney (JStr ''$1,234.50'') \<noteq> NaN
   \<and> (\<forall>q. example_money q \<noteq> JNum NaN)
   \<and> balance_handler example_text example_money (Some ''Alice@Example.com '') example_db =
       (Inr \<lparr>pendingBalance = Fin 19, claimedBalance = Fin 0, totalBalance = Fin 5,
             breakdown1 = Fin 16, breakdown2 = Fin 3, breakdown3 = Fin 0\<rparr>, example_db)
   \<and> totalBalance \<lparr>pendingBalance = Fin 19, claimedBalance = Fin 0, totalBalance = Fin 5,
             breakdown1 = Fin 16, breakdown2 = Fin 3, breakdown3 = Fin 0\<rparr> \<noteq> NaN"
proof -
  have a: "parseFloat (clean_money ''n/a'') = NaN"
    by (simp add: parse_defs)
  have b: "parseMoney (JStr ''$1,234.50'') = Fin (2469 / 2)"
    by (simp add: parse_defs)
  have c: "\<forall>q. example_money q \<noteq> JNum NaN"
    by (simp add: example_money_def)
  show ?thesis
    using a b c ex_balance
      parseMoney_never_NaN_but_for_NaN [of "Fin 7" "''n/a''" "JStr ''$1,234.50''" example_money
        example_text "Some ''Alice@Example.com ''" example_db 99]
    by simp
qed

text \<open>
  The claim as stated fails at the number \<open>NaN\<close>, which the number branch of parseMoney
  returns as it is.
\<close>

theorem parseMoney_NaN_counterexample: "parseMoney (JNum NaN) = NaN"
  by simp

section \<open>The referral code generator\<close>













section \<open>The ancestor chain walker\<close>

lemma filter_head_find: "(case filter P xs of [] \<Rightarrow> None | x # _ \<Rightarrow> Some x) = find P xs"
  by (induction xs) auto

lemma distinct_filter_id:
  "distinct (map f xs) \<Longrightarrow> filter (\<lambda>x. f x = k) xs = (case find (\<lambda>x. f x = k) xs of None \<Rightarrow> [] | Some x \<Rightarrow> [x])"
proof (induction xs)
  case Nil
  then show ?case by simp
next
  case (Cons a xs)
  show ?case
  proof (cases "f a = k")
    case True
    then have "\<forall>x\<in>set xs. f x \<noteq> k" using Cons.prems by (auto simp: image_iff)
    then have "filter (\<lambda>x. f x = k) xs = []" by (simp add: filter_empty_conv)
    with True show ?thesis by simp
  next
    case False
    with Cons show ?thesis by simp
  qed
qed

text \<open>With unique ids the first row of the join is the referrer the specification names.\<close>

lemma referrer_rows_head:
  assumes "distinct (map id_user (users d))"
  shows "(case referrer_rows d uid of [] \<Rightarrow> None | r # _ \<Rightarrow> Some r) = parent_of d uid"
proof (cases "find (\<lambda>u. id_user u = uid) (users d)")
  case None
  then show ?thesis
    by (simp add: referrer_rows_def parent_of_def distinct_filter_id [OF assms])
next
  case (Some u)
  have eq: "(\<lambda>u2. referred_by_code u = Some (referral_code u2)) =
      (\<lambda>p. referral_code p = the (referred_by_code u) \<and> referred_by_code u \<noteq> None)"
    by auto
  show ?thesis
  proof (cases "referred_by_code u")
    case None
    with Some show ?thesis
      by (simp add: referrer_rows_def parent_of_def distinct_filter_id [OF assms])
  next
    case (Some c)
    have "find (\<lambda>u2. c = referral_code u2) (users d) = find (\<lambda>p. referral_code p = c) (users d)"
      by (rule arg_cong [where f = "\<lambda>P. find P (users d)"]) auto
    with Some \<open>find (\<lambda>u. id_user u = uid) (users d) = Some u\<close> show ?thesis
      by (simp add: referrer_rows_def parent_of_def distinct_filter_id [OF assms] filter_head_find)
  qed
qed

lemma loop_ancestors:
  "distinct (map id_user (users d)) \<Longrightarrow>
   getReferrerChain_loop d m cur lvl chain = chain @ ancestors d cur (Suc lvl) (m - lvl)"
proof (induction d m cur lvl chain rule: getReferrerChain_loop.induct)
  case (1 d maxLevel currentUserId lvl chain)
  note dist = "1.prems"
  show ?case
  proof (cases "lvl < maxLevel")
    case False
    then show ?thesis by (subst getReferrerChain_loop.simps) simp
  next
    case True
    then obtain k where k: "maxLevel - lvl = Suc k" "maxLevel - Suc lvl = k"
      by (metis Suc_diff_Suc)
    show ?thesis
    proof (cases "referrer_rows d currentUserId")
      case Nil
      have "parent_of d currentUserId = None"
        using referrer_rows_head [OF dist, of currentUserId, symmetric] by (simp add: Nil)
      with Nil True k show ?thesis by (subst getReferrerChain_loop.simps) simp
    next
      case (Cons r rs)
      have "parent_of d currentUserId = Some r"
        using referrer_rows_head [OF dist, of currentUserId, symmetric] by (simp add: Cons)
      with Cons True k "1.IH" [OF True Cons dist] show ?thesis
        by (subst getReferrerChain_loop.simps) simp
    qed
  qed
qed

lemma ancestors_length: "length (ancestors d uid lvl n) \<le> n"
  by (induction d uid lvl n rule: ancestors.induct) (auto split: option.splits)

lemma ancestors_levels:
  "map snd (ancestors d uid lvl n) = [lvl ..< lvl + length (ancestors d uid lvl n)]"
proof (induction d uid lvl n rule: ancestors.induct)
  case (1 d uid lvl)
  show ?case by simp
next
  case (2 d uid lvl n)
  show ?case
  proof (cases "parent_of d uid")
    case None
    then show ?thesis by simp
  next
    case (Some p)
    let ?r = "ancestors d (id_user p) (Suc lvl) n"
    have ih: "map snd ?r = [Suc lvl ..< Suc lvl + length ?r]"
      by (rule 2 [OF Some])
    have "[lvl ..< lvl + Suc (length ?r)] = lvl # [Suc lvl ..< Suc lvl + length ?r]"
      by (simp add: upt_conv_Cons del: upt_Suc)
    with ih Some show ?thesis by (simp del: upt_Suc)
  qed
qed

text \<open>
  C4. With unique user ids, getReferrerChain is the repeated lookup of the user whose
  referral code is the current user's referred-by code, paired with the levels 1, 2, ...
  in increasing order, and it stops when there is no such user or \<open>maxLevel\<close> entries
  have been produced, so it has at most \<open>maxLevel\<close> entries. For C referred by B referred
  by A, who has no referrer, the chain of C is [(B, 1), (A, 2)]; for a user with no
  referrer it is empty.
\<close>

theorem getReferrerChain_walk:
  assumes "distinct (map id_user (users d))"
  shows "getReferrerChain d uid m = ancestors d uid 1 m
       \<and> length (getReferrerChain d uid m) \<le> m
       \<and> map snd (getReferrerChain d uid m) = [1 ..< 1 + length (getReferrerChain d uid m)]
       \<and> (parent_of d c = Some b \<and> parent_of d (id_user b) = Some a
            \<and> parent_of d (id_user a) = None
          \<longrightarrow> getReferrerChain d c 3 = [(b, 1), (a, 2)])
       \<and> (parent_of d uid = None \<longrightarrow> getReferrerChain d uid 3 = [])"
proof -
  have eq: "\<And>u k. getReferrerChain d u k = ancestors d u 1 k"
    by (simp add: getReferrerChain_def loop_ancestors [OF assms])
  have three: "(3::nat) = Suc (Suc (Suc 0))" by simp
  show ?thesis
    unfolding eq using ancestors_length [of d uid 1 m] ancestors_levels [of d uid 1 m]
    by (simp add: three)
qed

lemma ex_distinct: "distinct (map id_user (users example_db))"
  by (simp add: example_db_def alice_def bob_def carol_def dave_def erin_def)

lemma ex_parents:
  "parent_of example_db 3 = Some bob" "parent_of example_db 2 = Some alice"
  "parent_of example_db 1 = None"
  by (simp_all add: parent_of_def example_db_def alice_def bob_def carol_def dave_def erin_def)

theorem getReferrerChain_walk_witness:
  "distinct (map id_user (users example_db))
   \<and> parent_of example_db 3 = Some bob \<and> parent_of example_db (id_user bob) = Some alice
   \<and> parent_of example_db (id_user alice) = None
   \<and> getReferrerChain example_db 3 3 = [(bob, 1), (alice, 2)]
   \<and> getReferrerChain example_db 1 3 = []
   \<and> length (getReferrerChain example_db 3 1) \<le> 1"
proof -
  have ids: "id_user bob = 2" "id_user alice = 1"
    by (simp_all add: alice_def bob_def)
  note walk = getReferrerChain_walk [OF ex_distinct]
  have a: "getReferrerChain example_db 3 3 = [(bob, 1), (alice, 2)]"
    using walk [of 3 3 3 bob alice] ex_parents by (auto simp: ids)
  have b: "getReferrerChain example_db 1 3 = []"
    using walk [of 1 3 3 bob alice] ex_parents by auto
  have c: "length (getReferrerChain example_db 3 1) \<le> 1"
    using walk [of 3 1 3 bob alice] by auto
  show ?thesis
    using a b c ex_distinct ex_parents by (simp add: ids)
qed

section \<open>The commission accrual engine\<close>

text \<open>The levels of a chain lie between the first level and \<open>maxLevel\<close>.\<close>

lemma loop_levels:
  "(u, l) \<in> set (getReferrerChain_loop d m cur lvl chain) \<Longrightarrow>
   (u, l) \<in> set chain \<or> (lvl < l \<and> l \<le> m)"
proof (induction d m cur lvl chain rule: getReferrerChain_loop.induct)
  case (1 d maxLevel currentUserId lvl chain)
  show ?case
  proof (cases "lvl < maxLevel")
    case False
    with "1.prems" show ?thesis by (subst (asm) getReferrerChain_loop.simps) simp
  next
    case True
    show ?thesis
    proof (cases "referrer_rows d currentUserId")
      case Nil
      with True "1.prems" show ?thesis by (subst (asm) getReferrerChain_loop.simps) simp
    next
      case (Cons r rs)
      with True "1.prems"
      have "(u, l) \<in> set (getReferrerChain_loop d maxLevel (id_user r) (Suc lvl) (chain @ [(r, Suc lvl)]))"
        by (subst (asm) getReferrerChain_loop.simps) simp
      from "1.IH" [OF True Cons this] True show ?thesis by auto
    qed
  qed
qed

lemma chain_levels: "(u, l) \<in> set (getReferrerChain d uid 3) \<Longrightarrow> l = 1 \<or> l = 2 \<or> l = 3"
  using loop_levels [of u l d 3 uid 0 "[]"] by (auto simp: getReferrerChain_def)

lemma REFERRAL_LEVELS_tier:
  "l = 1 \<or> l = 2 \<or> l = 3 \<Longrightarrow> REFERRAL_LEVELS l = Some (tier_rate l)"
  by (auto simp: REFERRAL_LEVELS_def tier_rate_def)

lemma insert_earnings_rows:
  "\<forall>(u, l)\<in>set ch. l = 1 \<or> l = 2 \<or> l = 3 \<Longrightarrow>
   insert_earnings now depositId userId amt ch d =
     (None, d\<lparr>referral_earnings :=
                 referral_earnings d @ accrued_rows now depositId userId amt (earnings_seq d) ch,
               earnings_seq := earnings_seq d + length ch\<rparr>)"
proof (induction ch arbitrary: d)
  case Nil
  then show ?case by (simp add: accrued_rows_def)
next
  case (Cons x ch)
  obtain r l where x: "x = (r, l)" by (cases x)
  have l: "REFERRAL_LEVELS l = Some (tier_rate l)"
    using Cons.prems x by (intro REFERRAL_LEVELS_tier) simp
  have rest: "\<forall>(u, l)\<in>set ch. l = 1 \<or> l = 2 \<or> l = 3" using Cons.prems by simp
  show ?case
    by (simp add: x l Cons.IH [OF rest] accrued_rows_def)
qed

lemma calc_rows:
  "calculateReferralEarnings now depositId userId amt d =
     (None, d\<lparr>referral_earnings :=
                 referral_earnings d @
                 accrued_rows now depositId userId amt (earnings_seq d) (getReferrerChain d userId 3),
               earnings_seq := earnings_seq d + length (getReferrerChain d userId 3)\<rparr>)"
proof -
  have lv: "\<forall>(u, l)\<in>set (getReferrerChain d userId 3). l = 1 \<or> l = 2 \<or> l = 3"
    using chain_levels by auto
  show ?thesis
    by (simp add: calculateReferralEarnings_def insert_earnings_rows [OF lv])
qed

text \<open>The walk reads the users table only.\<close>

lemma referrer_rows_users: "users d' = users d \<Longrightarrow> referrer_rows d' uid = referrer_rows d uid"
  by (simp add: referrer_rows_def)

lemma loop_users:
  "users d' = users d \<Longrightarrow>
   getReferrerChain_loop d' m cur lvl chain = getReferrerChain_loop d m cur lvl chain"
proof (induction d m cur lvl chain rule: getReferrerChain_loop.induct)
  case (1 d maxLevel currentUserId lvl chain)
  note rr = referrer_rows_users [OF "1.prems"]
  show ?case
  proof (cases "lvl < maxLevel")
    case False
    then show ?thesis
      by (simp add: getReferrerChain_loop.simps [of d'] getReferrerChain_loop.simps [of d])
  next
    case True
    show ?thesis
    proof (cases "referrer_rows d currentUserId")
      case Nil
      with True rr show ?thesis
        by (simp add: getReferrerChain_loop.simps [of d' maxLevel currentUserId]
            getReferrerChain_loop.simps [of d maxLevel currentUserId])
    next
      case (Cons r rs)
      with True rr "1.IH" [OF True Cons "1.prems"] show ?thesis
        by (simp add: getReferrerChain_loop.simps [of d' maxLevel currentUserId]
            getReferrerChain_loop.simps [of d maxLevel currentUserId])
    qed
  qed
qed

lemma chain_users: "users d' = users d \<Longrightarrow> getReferrerChain d' uid m = getReferrerChain d uid m"
  unfolding getReferrerChain_def by (rule loop_users)

lemma deposit_handler_accepted:
  assumes "\<not> missing e" and "\<not> no_amount amt" and "findUserByEmail d (field e) = Some u"
  shows "deposit_handler now e amt d =
     (Inr \<lparr>dd_depositId = Suc (deposits_seq d), dd_amount = amount_of amt\<rparr>,
      d\<lparr>deposits := deposits d @
           [\<lparr>id_deposit = Suc (deposits_seq d), user_id = id_user u,
             amount_deposit = amount_of amt, status_deposit = ''completed'',
             created_at_deposit = now\<rparr>],
        deposits_seq := Suc (deposits_seq d),
        referral_earnings := referral_earnings d @
           accrued_rows now (Suc (deposits_seq d)) (id_user u) (amount_of amt) (earnings_seq d)
             (getReferrerChain d (id_user u) 3),
        earnings_seq := earnings_seq d + length (getReferrerChain d (id_user u) 3)\<rparr>)"
proof -
  let ?row = "\<lparr>id_deposit = Suc (deposits_seq d), user_id = id_user u,
             amount_deposit = amount_of amt, status_deposit = ''completed'',
             created_at_deposit = now\<rparr>"
  let ?d1 = "d\<lparr>deposits := deposits d @ [?row], deposits_seq := Suc (deposits_seq d)\<rparr>"
  have ch: "getReferrerChain ?d1 (id_user u) 3 = getReferrerChain d (id_user u) 3"
    by (rule chain_users) simp
  show ?thesis
    using assms by (simp add: deposit_handler_def Let_def calc_rows ch)
qed




lemma ex_find_carol: "findUserByEmail example_db (field (Some ''carol@example.com'')) = Some carol"
  by (simp add: findUserByEmail_def normalize_defs example_db_def alice_def bob_def carol_def)


section \<open>Stored deposits\<close>

lemma deposit_handler_rejects:
  "missing e \<or> no_amount amt \<or> findUserByEmail d (field e) = None \<Longrightarrow>
   snd (deposit_handler now e amt d) = d \<and> (\<exists>err. fst (deposit_handler now e amt d) = Inl err)"
  by (auto simp: deposit_handler_def)

text \<open>
  C6 (as amended). Every deposit request that is accepted stores exactly one deposit,
  with status completed, for the user of the email, and its amount is the amount of the
  request, which is not zero.
\<close>

theorem deposit_amount_nonzero:
  assumes "deposit_handler now e amt d = (Inr r, d')"
  shows "\<exists>u. findUserByEmail d (field e) = Some u
       \<and> deposits d' = deposits d @
           [\<lparr>id_deposit = dd_depositId r, user_id = id_user u, amount_deposit = amount_of amt,
             status_deposit = ''completed'', created_at_deposit = now\<rparr>]
       \<and> amt = Some (amount_of amt) \<and> amount_of amt \<noteq> 0 \<and> dd_amount r = amount_of amt"
proof -
  have ok: "\<not> missing e" "\<not> no_amount amt"
    using assms deposit_handler_rejects [of e amt d now] by auto
  obtain u where u: "findUserByEmail d (field e) = Some u"
    using assms deposit_handler_rejects [of e amt d now] by (cases "findUserByEmail d (field e)") auto
  have amt: "amt = Some (amount_of amt) \<and> amount_of amt \<noteq> 0"
    using ok(2) by (cases amt) auto
  show ?thesis
    using assms amt u unfolding deposit_handler_accepted [OF ok u]
    by auto
qed

theorem deposit_amount_nonzero_witness:
  "deposit_handler 80 (Some ''carol@example.com'') (Some 100) example_db =
     (Inr \<lparr>dd_depositId = 3, dd_amount = 100\<rparr>,
      snd (deposit_handler 80 (Some ''carol@example.com'') (Some 100) example_db))
   \<and> deposits (snd (deposit_handler 80 (Some ''carol@example.com'') (Some 100) example_db)) =
       deposits example_db @
         [\<lparr>id_deposit = 3, user_id = 3, amount_deposit = 100,
           status_deposit = ''completed'', created_at_deposit = 80\<rparr>]"
proof -
  have ok: "\<not> missing (Some ''carol@example.com'')" "\<not> no_amount (Some (100::rat))"
    by simp_all
  have r: "deposit_handler 80 (Some ''carol@example.com'') (Some 100) example_db =
     (Inr \<lparr>dd_depositId = 3, dd_amount = 100\<rparr>,
      snd (deposit_handler 80 (Some ''carol@example.com'') (Some 100) example_db))"
    unfolding deposit_handler_accepted [OF ok ex_find_carol]
    by (simp add: example_db_def)
  have c: "id_user carol = 3" by (simp add: carol_def)
  show ?thesis
    using deposit_amount_nonzero [OF r] r ex_find_carol
    by (auto simp: c)
qed

text \<open>
  The claim as stated fails: a request with the amount -5 is accepted, and the stored
  deposit has the amount -5.
\<close>

theorem deposit_negative_counterexample:
  "fst (deposit_handler 80 (Some ''carol@example.com'') (Some (- 5)) example_db) =
     Inr \<lparr>dd_depositId = 3, dd_amount = - 5\<rparr>
   \<and> deposits (snd (deposit_handler 80 (Some ''carol@example.com'') (Some (- 5)) example_db)) =
       deposits example_db @
         [\<lparr>id_deposit = 3, user_id = 3, amount_deposit = - 5,
           status_deposit = ''completed'', created_at_deposit = 80\<rparr>]
   \<and> \<not> 0 < amount_deposit (last (deposits (snd
         (deposit_handler 80 (Some ''carol@example.com'') (Some (- 5)) example_db))))"
proof -
  have ok: "\<not> missing (Some ''carol@example.com'')" "\<not> no_amount (Some (- 5::rat))"
    by simp_all
  show ?thesis
    unfolding deposit_handler_accepted [OF ok ex_find_carol]
    by (simp add: example_db_def carol_def)
qed

section \<open>Email masking\<close>

text \<open>
  Where the local part has at least two characters (and the address has no line break and
  no second \<^verbatim>\<open>@\<close>), the mask keeps two characters, puts \<^verbatim>\<open>***\<close> for the rest of the local
  part and keeps the domain.
\<close>

lemma match_here_local:
  assumes "\<not> is_lt c1" "\<not> is_lt c2" "\<forall>c\<in>set t. \<not> is_lt c" "\<forall>c\<in>set dm. \<not> is_lt c"
    and "CHR ''@'' \<notin> set dm"
  shows "match_here (c1 # c2 # t @ CHR ''@'' # dm) = Some ([c1, c2], CHR ''@'' # dm, [])"
proof -
  have nl: "\<not> is_lt CHR ''@''" by (simp add: is_lt_def)
  have all: "\<forall>c\<in>set (t @ CHR ''@'' # dm). \<not> is_lt c" using assms nl by auto
  have tw: "takeWhile (\<lambda>c. \<not> is_lt c) (t @ CHR ''@'' # dm) = t @ CHR ''@'' # dm"
    using all by (simp only: takeWhile_eq_all_conv) 
  have dw: "dropWhile (\<lambda>c. \<not> is_lt c) (t @ CHR ''@'' # dm) = []"
    using all by (simp only: dropWhile_eq_Nil_conv)
  have "takeWhile (\<lambda>c. c \<noteq> CHR ''@'') (rev dm @ CHR ''@'' # rev t) =
      rev dm @ takeWhile (\<lambda>c. c \<noteq> CHR ''@'') (CHR ''@'' # rev t)"
    using assms(5) by (intro takeWhile_append2) auto
  then have "takeWhile (\<lambda>c. c \<noteq> CHR ''@'') (rev dm @ CHR ''@'' # rev t) = rev dm"
    by simp
  then have g3: "rev (takeWhile (\<lambda>c. c \<noteq> CHR ''@'') (rev (t @ CHR ''@'' # dm))) = dm"
    by simp 
  show ?thesis
    using assms(1,2) by (simp add: tw dw g3 del: rev_append rev.simps)
qed

lemma maskEmail_masks:
  assumes "2 \<le> length loc" "\<forall>c\<in>set loc. \<not> is_lt c" "\<forall>c\<in>set dm. \<not> is_lt c"
    and "CHR ''@'' \<notin> set dm"
  shows "maskEmail (loc @ CHR ''@'' # dm) = take 2 loc @ ''***'' @ CHR ''@'' # dm"
proof -
  obtain c1 c2 t where loc: "loc = c1 # c2 # t"
    using assms(1) by (cases loc; cases "tl loc") auto
  have "match_here (c1 # c2 # t @ CHR ''@'' # dm) = Some ([c1, c2], CHR ''@'' # dm, [])"
    using assms loc by (intro match_here_local) auto
  then show ?thesis by (simp add: loc del: match_here.simps)
qed

text \<open>
  C9 at an address whose local part has one character: the pattern needs two characters
  before the text that ends at an \<^verbatim>\<open>@\<close>, so it does not match, and the address is returned
  (and shown by the inviter lookup) in full, with no \<^verbatim>\<open>***\<close>.
\<close>

theorem maskEmail_short_local_part:
  "maskEmail ''a@example.com'' = ''a@example.com''
   \<and> inviter_handler (Some ''123456'') short_db =
       (Inr \<lparr>iv_maskedEmail = ''a@example.com'', iv_referralCode = ''123456'',
             iv_joinedAt = 10\<rparr>, short_db)"
  by (simp add: is_lt_def inviter_handler_def findUserByReferralCode_def short_db_def)

lemma maskEmail_johndoe: "maskEmail ''johndoe@example.com'' = ''jo***@example.com''"
  by (simp add: is_lt_def)

section \<open>The team expander\<close>















section \<open>Claim settlement\<close>

lemma find_map_same:
  "(\<And>x. P (f x) = P x) \<Longrightarrow> find P (map f xs) = map_option f (find P xs)"
  by (induction xs) auto

lemma email_add_balance: "email (add_balance q uid u) = email u"
  by (simp add: add_balance_def)

lemma findUserByEmail_add_balance:
  "findUserByEmail (d\<lparr>users := map (add_balance q uid) (users d)\<rparr>) e =
     map_option (add_balance q uid) (findUserByEmail d e)"
  by (simp add: findUserByEmail_def find_map_same email_add_balance)

lemma findUserByEmail_earnings:
  "findUserByEmail (d\<lparr>referral_earnings := es\<rparr>) e = findUserByEmail d e"
  by (simp add: findUserByEmail_def)

lemma no_pending_after_mark:
  "filter (\<lambda>e. referrer_id e = uid \<and> status e = ''pending'') (map (mark_claimed now uid) es) = []"
  by (induction es) (auto simp: mark_claimed_def)

lemma status_total_after_mark:
  "status_total (d\<lparr>referral_earnings := map (mark_claimed now uid) (referral_earnings d)\<rparr>) uid ''pending'' = 0"
  by (simp add: status_total_def no_pending_after_mark)

text \<open>The outcome of a claim by an existing user, by the amount the handler reads.\<close>

lemma claim_handler_nothing:
  assumes "\<not> missing e" and "findUserByEmail d (field e) = Some u"
    and "js_le_zero (or_zero (parseFloat (num_text (status_total d (id_user u) ''pending''))))"
  shows "claim_handler num_text money_js now e d =
           (Inl (BadRequest ''No pending rewards to claim''), d)"
  using assms by (simp add: claim_handler_def)

lemma claim_handler_settles:
  assumes "\<not> missing e" and "findUserByEmail d (field e) = Some u"
    and "parseFloat (num_text (status_total d (id_user u) ''pending'')) = Fin q" and "0 < q"
  shows "claim_handler num_text money_js now e d =
     (Inr \<lparr>claimedAmount = Fin q, newBalance = parseMoney (money_js (balance u + q))\<rparr>,
      d\<lparr>referral_earnings := map (mark_claimed now (id_user u)) (referral_earnings d),
        users := map (add_balance q (id_user u)) (users d)\<rparr>)"
proof -
  have oz: "or_zero (Fin q) = Fin q" using assms(4) by (simp add: or_zero_def)
  have nle: "\<not> js_le_zero (Fin q)" using assms(4) by simp
  have f: "findUserByEmail
      (d\<lparr>referral_earnings := map (mark_claimed now (id_user u)) (referral_earnings d),
         users := map (add_balance q (id_user u)) (users d)\<rparr>) (field e) =
      Some (add_balance q (id_user u) u)"
    using assms(2) by (simp add: findUserByEmail_def find_map_same email_add_balance)
  have b: "balance (add_balance q (id_user u) u) = balance u + q"
    by (simp add: add_balance_def)
  show ?thesis
    using assms(1,2,4) by (simp add: claim_handler_def assms(3) oz Let_def f b)
qed


lemma claim_handler_accepted:
  assumes "claim_handler num_text money_js now e d = (Inr r, d')"
  shows "\<exists>u q. \<not> missing e \<and> findUserByEmail d (field e) = Some u \<and> 0 < q
           \<and> d' = d\<lparr>referral_earnings := map (mark_claimed now (id_user u)) (referral_earnings d),
                     users := map (add_balance q (id_user u)) (users d)\<rparr>"
proof -
  have m: "\<not> missing e"
    using assms by (auto simp: claim_handler_def)
  obtain u where u: "findUserByEmail d (field e) = Some u"
    using assms m by (cases "findUserByEmail d (field e)") (auto simp: claim_handler_def)
  let ?p = "or_zero (parseFloat (num_text (status_total d (id_user u) ''pending'')))"
  have nle: "\<not> js_le_zero ?p"
    using assms m u by (auto simp: claim_handler_def Let_def split: if_splits)
  obtain q where q: "?p = Fin q"
    using assms m u nle by (cases ?p) (auto simp: claim_handler_def Let_def)
  have pos: "0 < q" using nle q by simp
  have "d' = d\<lparr>referral_earnings := map (mark_claimed now (id_user u)) (referral_earnings d),
                     users := map (add_balance q (id_user u)) (users d)\<rparr>"
    using assms m u nle q
    by (auto simp: claim_handler_def Let_def split: option.splits)
  with m u pos show ?thesis by blast
qed

lemma id_add_balance: "id_user (add_balance q uid u) = id_user u"
  by (simp add: add_balance_def)


text \<open>
  C2. For an existing user, and a driver whose text for the pending sum reads back as
  that sum, the claim fails with "No pending rewards to claim" exactly when the pending
  sum is at most 0, and then the state is unchanged. A second claim right after a
  successful one fails with the same condition (the driver's text for 0 reading as 0).
\<close>

theorem claim_nothing_to_claim:
  assumes "\<not> missing e" and "findUserByEmail d (field e) = Some u"
    and "parseFloat (num_text (status_total d (id_user u) ''pending'')) =
           Fin (status_total d (id_user u) ''pending'')"
  shows "((fst (claim_handler num_text money_js now e d) =
            Inl (BadRequest ''No pending rewards to claim''))
          = (status_total d (id_user u) ''pending'' \<le> 0))
       \<and> (status_total d (id_user u) ''pending'' \<le> 0 \<longrightarrow>
            snd (claim_handler num_text money_js now e d) = d)
       \<and> (\<forall>r d'. claim_handler num_text money_js now e d = (Inr r, d')
                   \<and> parseFloat (num_text 0) = Fin 0 \<longrightarrow>
            claim_handler num_text money_js now' e d' =
              (Inl (BadRequest ''No pending rewards to claim''), d'))"
proof -
  let ?q = "status_total d (id_user u) ''pending''"
  have le: "?q \<le> 0 \<Longrightarrow> claim_handler num_text money_js now e d =
      (Inl (BadRequest ''No pending rewards to claim''), d)"
    using assms by (intro claim_handler_nothing) (auto simp: or_zero_def)
  have gt: "0 < ?q \<Longrightarrow> \<exists>r d'. claim_handler num_text money_js now e d = (Inr r, d')"
    using claim_handler_settles [of e d u num_text ?q money_js now] assms by blast
  have a: "(fst (claim_handler num_text money_js now e d) =
            Inl (BadRequest ''No pending rewards to claim'')) = (?q \<le> 0)"
  proof (cases "?q \<le> 0")
    case True
    then show ?thesis using le by simp
  next
    case False
    then obtain r d' where "claim_handler num_text money_js now e d = (Inr r, d')"
      using gt by auto
    with False show ?thesis by simp
  qed
  have b: "?q \<le> 0 \<longrightarrow> snd (claim_handler num_text money_js now e d) = d"
    using le by simp
  have c: "\<forall>r d'. claim_handler num_text money_js now e d = (Inr r, d')
                   \<and> parseFloat (num_text 0) = Fin 0 \<longrightarrow>
            claim_handler num_text money_js now' e d' =
              (Inl (BadRequest ''No pending rewards to claim''), d')"
  proof (intro allI impI, elim conjE)
    fix r d'
    assume run: "claim_handler num_text money_js now e d = (Inr r, d')"
      and z: "parseFloat (num_text 0) = Fin 0"
    obtain v q where v: "findUserByEmail d (field e) = Some v"
      and d': "d' = d\<lparr>referral_earnings := map (mark_claimed now (id_user v)) (referral_earnings d),
                     users := map (add_balance q (id_user v)) (users d)\<rparr>"
      using claim_handler_accepted [OF run] by blast
    have f: "findUserByEmail d' (field e) = Some (add_balance q (id_user v) v)"
      using v by (simp add: d' findUserByEmail_def find_map_same email_add_balance)
    have t: "status_total d' (id_user (add_balance q (id_user v) v)) ''pending'' = 0"
      by (simp add: d' id_add_balance status_total_def no_pending_after_mark)
    show "claim_handler num_text money_js now' e d' =
              (Inl (BadRequest ''No pending rewards to claim''), d')"
      by (rule claim_handler_nothing [OF assms(1) f]) (simp add: t z or_zero_def)
  qed
  show ?thesis by (rule conjI [OF a conjI [OF b c]])
qed


lemma ex_alice_pending: "status_total example_db (id_user alice) ''pending'' = 19"
  by (simp add: status_total_def example_db_def example_earnings_def alice_def)

lemma ex_text_19: "parseFloat (example_text 19) = Fin 19"
  by (simp add: example_text_def parse_defs)

lemma ex_money_24: "parseMoney (example_money 24) = Fin 24"
  by (simp add: example_money_def example_text_def parse_defs)

lemma ex_text_0: "parseFloat (example_text 0) = Fin 0"
  by (simp add: example_text_def parse_defs)

lemma ex_claim_alice:
  "claim_handler example_text example_money 99 (Some ''Alice@Example.com '') example_db =
     (Inr \<lparr>claimedAmount = Fin 19, newBalance = Fin 24\<rparr>,
      example_db\<lparr>referral_earnings := map (mark_claimed 99 (id_user alice)) (referral_earnings example_db),
                 users := map (add_balance 19 (id_user alice)) (users example_db)\<rparr>)"
proof -
  have m: "\<not> missing (Some ''Alice@Example.com '')" by simp
  have f: "findUserByEmail example_db (field (Some ''Alice@Example.com '')) = Some alice"
    using ex_find_alice by simp
  have p: "parseFloat (example_text (status_total example_db (id_user alice) ''pending'')) = Fin 19"
    by (simp add: ex_alice_pending ex_text_19)
  have b: "balance alice + 19 = 24" by (simp add: alice_def)
  show ?thesis
    using claim_handler_settles
      [of "Some ''Alice@Example.com ''" example_db alice example_text 19 example_money 99] m f p
    by (simp add: b ex_money_24)
qed


lemma ex_find_dave: "findUserByEmail example_db (field (Some ''dave@example.com'')) = Some dave"
  by (simp add: findUserByEmail_def normalize_defs example_db_def alice_def bob_def carol_def dave_def)

lemma ex_dave_pending: "status_total example_db (id_user dave) ''pending'' = 0"
  by (simp add: status_total_def example_db_def example_earnings_def dave_def)

theorem claim_nothing_to_claim_witness:
  "\<not> missing (Some ''dave@example.com'')
   \<and> findUserByEmail example_db (field (Some ''dave@example.com'')) = Some dave
   \<and> status_total example_db (id_user dave) ''pending'' = 0
   \<and> fst (claim_handler example_text example_money 99 (Some ''dave@example.com'') example_db) =
        Inl (BadRequest ''No pending rewards to claim'')
   \<and> snd (claim_handler example_text example_money 99 (Some ''dave@example.com'') example_db) =
        example_db
   \<and> fst (claim_handler example_text example_money 99 (Some ''Alice@Example.com '') example_db) =
        Inr \<lparr>claimedAmount = Fin 19, newBalance = Fin 24\<rparr>
   \<and> fst (claim_handler example_text example_money 100 (Some ''Alice@Example.com '')
        (snd (claim_handler example_text example_money 99 (Some ''Alice@Example.com '') example_db))) =
        Inl (BadRequest ''No pending rewards to claim'')"
proof -
  have m: "\<not> missing (Some ''dave@example.com'')" by simp
  have p: "parseFloat (example_text (status_total example_db (id_user dave) ''pending'')) =
      Fin (status_total example_db (id_user dave) ''pending'')"
    by (simp add: ex_dave_pending ex_text_0)
  have dave: "fst (claim_handler example_text example_money 99 (Some ''dave@example.com'') example_db) =
        Inl (BadRequest ''No pending rewards to claim'')
     \<and> snd (claim_handler example_text example_money 99 (Some ''dave@example.com'') example_db) =
        example_db"
    using claim_nothing_to_claim
      [of "Some ''dave@example.com''" example_db dave example_text example_money 99 100]
      m ex_find_dave p
    by (simp add: ex_dave_pending)
  have m': "\<not> missing (Some ''Alice@Example.com '')" by simp
  have f': "findUserByEmail example_db (field (Some ''Alice@Example.com '')) = Some alice"
    using ex_find_alice by simp
  have p': "parseFloat (example_text (status_total example_db (id_user alice) ''pending'')) =
      Fin (status_total example_db (id_user alice) ''pending'')"
    by (simp add: ex_alice_pending ex_text_19)
  have second: "fst (claim_handler example_text example_money 100 (Some ''Alice@Example.com '')
        (snd (claim_handler example_text example_money 99 (Some ''Alice@Example.com '') example_db))) =
        Inl (BadRequest ''No pending rewards to claim'')"
    using claim_nothing_to_claim
      [of "Some ''Alice@Example.com ''" example_db alice example_text example_money 99 100]
      m' f' p' ex_claim_alice ex_text_0
    by simp
  show ?thesis
    using dave second m ex_find_dave ex_dave_pending ex_claim_alice by simp
qed

section \<open>Balances over all operations\<close>

text \<open>What each handler does to the users table.\<close>

lemma createUser_users:
  "users (snd (createUser digest now e c d)) = users d @ [fst (createUser digest now e c d)]"
  by (simp add: createUser_def Let_def)

lemma referral_handler_users:
  "users (snd (referral_handler digest now e d)) = users d
   \<or> (\<exists>u. users (snd (referral_handler digest now e d)) = users d @ [u])"
  by (auto simp: referral_handler_def createUser_def Let_def split: option.splits)

lemma register_handler_users:
  "users (snd (register_handler digest now e c d)) = users d
   \<or> (\<exists>u. users (snd (register_handler digest now e c d)) = users d @ [u])"
  by (auto simp: register_handler_def createUser_def Let_def split: option.splits)

lemma deposit_handler_users: "users (snd (deposit_handler now e a d)) = users d"
proof (cases "missing e \<or> no_amount a \<or> findUserByEmail d (field e) = None")
  case True
  then show ?thesis using deposit_handler_rejects [of e a d now] by simp
next
  case False
  then obtain u where "\<not> missing e" "\<not> no_amount a" "findUserByEmail d (field e) = Some u"
    by auto
  then show ?thesis by (simp add: deposit_handler_accepted)
qed

lemma claim_handler_users:
  "users (snd (claim_handler num_text money_js now e d)) = users d
   \<or> (\<exists>q uid. 0 < q \<and>
         users (snd (claim_handler num_text money_js now e d)) = map (add_balance q uid) (users d))"
proof (cases "missing e")
  case True
  then show ?thesis by (simp add: claim_handler_def)
next
  case False
  note m = this
  show ?thesis
  proof (cases "findUserByEmail d (field e)")
    case None
    with m show ?thesis by (simp add: claim_handler_def)
  next
    case (Some u)
    let ?p = "or_zero (parseFloat (num_text (status_total d (id_user u) ''pending'')))"
    show ?thesis
    proof (cases "js_le_zero ?p")
      case True
      with m Some show ?thesis by (simp add: claim_handler_def)
    next
      case False
      show ?thesis
      proof (cases ?p)
        case (Fin q)
        with False have "0 < q" by simp
        moreover have "users (snd (claim_handler num_text money_js now e d)) =
            map (add_balance q (id_user u)) (users d)"
          using m Some False Fin by (simp add: claim_handler_def Let_def split: option.splits)
        ultimately show ?thesis by blast
      next
        case NaN
        with m Some False show ?thesis by (simp add: claim_handler_def Let_def)
      next
        case PosInf
        with m Some False show ?thesis by (simp add: claim_handler_def Let_def)
      next
        case NegInf
        with m Some False show ?thesis by (simp add: claim_handler_def Let_def)
      qed
    qed
  qed
qed

lemma read_only_handlers:
  "snd (inviter_handler c d) = d" "snd (team_handler e d) = d"
  "snd (balance_handler num_text money_js e d) = d" "snd (history_handler money_js e d) = d"
  by (simp_all add: inviter_handler_def team_handler_def balance_handler_def history_handler_def
      Let_def split: option.splits)

lemma exec_users:
  "users (exec digest num_text money_js now req d) = users d
   \<or> (\<exists>u. users (exec digest num_text money_js now req d) = users d @ [u])
   \<or> (is_claim req \<and> (\<exists>q uid. 0 < q \<and>
         users (exec digest num_text money_js now req d) = map (add_balance q uid) (users d)))"
proof (cases req)
  case (GetReferral e)
  then show ?thesis using referral_handler_users [of digest now e d] by auto
next
  case (PostRegister e c)
  then show ?thesis using register_handler_users [of digest now e c d] by auto
next
  case (PostClaim e)
  then show ?thesis using claim_handler_users [of num_text money_js now e d] by auto
next
  case (PostDeposit e a)
  then show ?thesis by (simp add: deposit_handler_users)
qed (simp_all add: read_only_handlers)

lemma add_balance_grows:
  "0 < q \<Longrightarrow> id_user (add_balance q uid u) = id_user u \<and> email (add_balance q uid u) = email u
     \<and> balance u \<le> balance (add_balance q uid u)"
  by (simp add: add_balance_def)

text \<open>
  C5. Whatever the operation, every user row of the state before is still there after it,
  at the same place and with the same id and email, and its balance is not smaller than
  before; where a balance is greater than before, the operation is a claim.
\<close>

theorem balance_never_decreases:
  "length (users d) \<le> length (users (exec digest num_text money_js now req d))
   \<and> (\<forall>i<length (users d).
        id_user (users (exec digest num_text money_js now req d) ! i) = id_user (users d ! i)
        \<and> email (users (exec digest num_text money_js now req d) ! i) = email (users d ! i)
        \<and> balance (users d ! i) \<le> balance (users (exec digest num_text money_js now req d) ! i)
        \<and> (balance (users d ! i) < balance (users (exec digest num_text money_js now req d) ! i)
             \<longrightarrow> is_claim req))"
proof -
  let ?us = "users (exec digest num_text money_js now req d)"
  consider (same) "?us = users d"
    | (new) u where "?us = users d @ [u]"
    | (claim) q uid where "is_claim req" "0 < q" "?us = map (add_balance q uid) (users d)"
    using exec_users [of digest num_text money_js now req d] by blast
  then show ?thesis
  proof cases
    case same
    then show ?thesis by simp
  next
    case new
    then show ?thesis by (simp add: nth_append)
  next
    case claim
    then show ?thesis using add_balance_grows [of q uid] by simp
  qed
qed

theorem balance_never_decreases_witness:
  "0 < length (users example_db)
   \<and> balance (users example_db ! 0) = 5
   \<and> balance (users (exec example_digest example_text example_money 99
        (PostClaim (Some ''Alice@Example.com '')) example_db) ! 0) = 24
   \<and> is_claim (PostClaim (Some ''Alice@Example.com ''))
   \<and> balance (users example_db ! 0)
        \<le> balance (users (exec example_digest example_text example_money 99
              (PostClaim (Some ''Alice@Example.com '')) example_db) ! 0)
   \<and> balance (users example_db ! 0)
        \<le> balance (users (exec example_digest example_text example_money 99
              (PostDeposit (Some ''carol@example.com'') (Some 100)) example_db) ! 0)"
proof -
  have l: "0 < length (users example_db)" by (simp add: example_db_def)
  have b: "balance (users example_db ! 0) = 5" by (simp add: example_db_def alice_def)
  have c: "balance (users (exec example_digest example_text example_money 99
        (PostClaim (Some ''Alice@Example.com '')) example_db) ! 0) = 24"
    by (simp add: ex_claim_alice) (simp add: example_db_def alice_def add_balance_def)
  show ?thesis
    using balance_never_decreases [of example_db example_digest example_text example_money 99
        "PostClaim (Some ''Alice@Example.com '')"]
      balance_never_decreases [of example_db example_digest example_text example_money 99
        "PostDeposit (Some ''carol@example.com'') (Some 100)"]
      l b c
    by auto
qed

end
